theory Spec2Isabelle
  imports Main
begin

section \<open>Configuration (monitor_alert.go, lines 14-54)\<close>

text \<open>
  The structs of the configuration document become records with the fields of the
  source.  Go's \<open>int\<close> fields are integers (of 64 bits, where the width matters: the
  product of the retry delay below); header maps are association lists.
\<close>

record SlackConfig =
  WebhookURL :: string
  Channels :: "string list"

record EmailConfig =
  SMTPServer :: string
  SMTPPort :: int
  Username :: string
  Password :: string
  Recipients :: "string list"

record PagerDutyConfig =
  ServiceKey :: string
  APIKey :: string

record AlertConfig =
  Slack :: SlackConfig
  Email :: EmailConfig
  PagerDuty :: PagerDutyConfig

record ServiceConfig =
  Name :: string
  URL :: string
  Method :: string
  Headers :: "(string \<times> string) list"
  ExpectedStatus :: int
  Timeout :: int
  CheckInterval :: int
  RetryAttempts :: int
  RetryDelay :: int
  CriticalService :: bool

record MonitorConfig =
  Services :: "ServiceConfig list"
  Alerts :: AlertConfig

section \<open>Health records and the monitor (lines 56-72)\<close>

text \<open>
  Instants (\<open>time.Time\<close>) and durations (\<open>time.Duration\<close>) are integers counting
  nanoseconds.  \<open>RecoveryTime\<close> is a pointer in the source: \<open>None\<close> is \<open>nil\<close>.

  \<open>FailureCount\<close> is a Go \<open>int\<close>, whose width depends on the target.  It only ever
  grows by one per applied outcome (lemma \<open>FailureCount_bounded\<close> below), so it is
  kept as an unbounded integer: it stays within the machine range on every run of
  fewer than \<open>2^31\<close> outcomes.
\<close>

record ServiceStatus =
  Name :: string
  Status :: bool
  LastCheck :: int
  LastError :: string
  FailureCount :: int
  ResponseTime :: int
  AlertSent :: bool
  RecoveryTime :: "int option"

text \<open>
  The monitor holds the configuration and the map from service name to the record of
  that service.  The source stores pointers in the map and mutates the record behind
  the pointer; each key has a pointer of its own, so a map from names to records with
  an update at the key is the same store.  The mutex and the HTTP client carry no
  data of the health state machine.
\<close>

record Monitor =
  config :: MonitorConfig
  serviceStatus :: "string \<rightharpoonup> ServiceStatus"

datatype panic = NilPointerDereference

text \<open>
  Every \<open>time.Now()\<close> that \<open>updateServiceStatus\<close> and \<open>sendRecoveryAlert\<close> evaluate is
  an input of the model: \<open>now_check\<close> is the reading of line 156, \<open>now_recovery\<close> the
  one of line 170 and \<open>now_since\<close> the one inside \<open>time.Since\<close> at line 234.
\<close>

record clock =
  now_check :: int
  now_recovery :: int
  now_since :: int

section \<open>Alert dispatch (lines 178-281)\<close>

text \<open>
  A call to a notification backend is recorded with the data the source formats into
  its payload: service name and error text for an outage, service name and the
  \<open>duration\<close> of line 234 for a recovery (the text prints it rounded to the second).
  The timestamps of the payloads are left out.  The source logs the error of a failed
  send and goes on, so a call is recorded whether or not the backend answers.
\<close>

datatype backend_call =
    is_SlackAlert: SlackAlert string string
  | is_PagerDutyTrigger: PagerDutyTrigger string string
  | is_SlackRecovery: SlackRecovery string int
  | is_PagerDutyResolve: PagerDutyResolve string

text \<open>
  An event is one invocation of a dispatch function by the status tracker, with the
  backend calls it made: \<open>OutageStarted\<close> is a call of \<open>sendAlerts\<close>, \<open>Recovered\<close> a
  call of \<open>sendRecoveryAlert\<close> together with the duration it computed.
\<close>

datatype event =
    is_OutageStarted: OutageStarted string string "backend_call list"
  | is_Recovered: Recovered string int "backend_call list"

definition zero_ServiceConfig :: ServiceConfig where
  "zero_ServiceConfig =
     \<lparr>ServiceConfig.Name = [], URL = [], Method = [], Headers = [], ExpectedStatus = 0,
      Timeout = 0, CheckInterval = 0, RetryAttempts = 0, RetryDelay = 0,
      CriticalService = False\<rparr>"

text \<open>Lines 260-266: the first configured service of that name, else the zero value.\<close>

fun find_serviceConfig :: "ServiceConfig list \<Rightarrow> string \<Rightarrow> ServiceConfig" where
  "find_serviceConfig [] service = zero_ServiceConfig"
| "find_serviceConfig (s # ss) service =
     (if ServiceConfig.Name s = service then s else find_serviceConfig ss service)"

definition sendAlerts :: "Monitor \<Rightarrow> string \<Rightarrow> string \<Rightarrow> backend_call list" where
  "sendAlerts m service message =
     (let serviceConfig = find_serviceConfig (Services (config m)) service in
        (if WebhookURL (Slack (Alerts (config m))) \<noteq> []
         then [SlackAlert service message] else [])
      @ (if CriticalService serviceConfig \<and> ServiceKey (PagerDuty (Alerts (config m))) \<noteq> []
         then [PagerDutyTrigger service message] else []))"

text \<open>
  Lines 232-256.  The record is read from the map and \<open>RecoveryTime\<close> is dereferenced:
  a missing record or a \<open>nil\<close> recovery time is a panic.  The result is the duration
  of line 234 and the backend calls.
\<close>

definition sendRecoveryAlert ::
  "Monitor \<Rightarrow> string \<Rightarrow> int \<Rightarrow> panic + (int \<times> backend_call list)" where
  "sendRecoveryAlert m service now =
     (case serviceStatus m service of
        None \<Rightarrow> Inl NilPointerDereference
      | Some status \<Rightarrow>
          (case RecoveryTime status of
             None \<Rightarrow> Inl NilPointerDereference
           | Some recoveryTime \<Rightarrow>
               (let duration = now - recoveryTime in
                Inr (duration,
                  (if WebhookURL (Slack (Alerts (config m))) \<noteq> []
                   then [SlackRecovery service duration] else [])
                  @ (if ServiceKey (PagerDuty (Alerts (config m))) \<noteq> []
                     then [PagerDutyResolve service] else [])))))"

section \<open>The status tracker (lines 149-176)\<close>

definition store :: "Monitor \<Rightarrow> string \<Rightarrow> ServiceStatus \<Rightarrow> Monitor" where
  "store m serviceName s = m\<lparr>serviceStatus := (serviceStatus m)(serviceName \<mapsto> s)\<rparr>"

text \<open>
  The transition function returns the monitor after the call and the events of the
  call, or the panic of reading a record that is not in the map.
\<close>

definition updateServiceStatus ::
  "Monitor \<Rightarrow> string \<Rightarrow> bool \<Rightarrow> string \<Rightarrow> int \<Rightarrow> clock \<Rightarrow> panic + (Monitor \<times> event list)" where
  "updateServiceStatus m serviceName status errMsg responseTime clk =
     (case serviceStatus m serviceName of
        None \<Rightarrow> Inl NilPointerDereference
      | Some s0 \<Rightarrow>
          (let prevStatus = Status s0;
               s1 = s0\<lparr>Status := status, LastCheck := now_check clk,
                       ResponseTime := responseTime\<rparr>
           in
             if \<not> status then
               (let s2 = s1\<lparr>LastError := errMsg, FailureCount := FailureCount s1 + 1\<rparr> in
                  if prevStatus \<and> \<not> AlertSent s2 then
                    Inr (store m serviceName (s2\<lparr>AlertSent := True\<rparr>),
                         [OutageStarted serviceName errMsg
                            (sendAlerts (store m serviceName s2) serviceName errMsg)])
                  else Inr (store m serviceName s2, []))
             else if \<not> prevStatus \<and> status then
               (let s2 = s1\<lparr>RecoveryTime := Some (now_recovery clk), FailureCount := 0,
                             AlertSent := False\<rparr>;
                    m2 = store m serviceName s2
                in case sendRecoveryAlert m2 serviceName (now_since clk) of
                     Inl p \<Rightarrow> Inl p
                   | Inr (duration, calls) \<Rightarrow>
                       Inr (m2, [Recovered serviceName duration calls]))
             else Inr (store m serviceName s1, [])))"

section \<open>Start-up (lines 86-101)\<close>

text \<open>
  \<open>NewMonitor\<close> after the configuration has been read and parsed: one record per
  configured service, healthy, with every other field at its zero value.  A name that
  is configured twice gets one record, the later assignment replacing the earlier.
  The readings of the clock in the loop (line 97) are taken as one instant \<open>now\<close>.
\<close>

definition initialStatus :: "string \<Rightarrow> int \<Rightarrow> ServiceStatus" where
  "initialStatus name now =
     \<lparr>ServiceStatus.Name = name, Status = True, LastCheck = now, LastError = [],
      FailureCount = 0, ResponseTime = 0, AlertSent = False, RecoveryTime = None\<rparr>"

fun initServiceStatus ::
  "ServiceConfig list \<Rightarrow> int \<Rightarrow> (string \<rightharpoonup> ServiceStatus) \<Rightarrow> (string \<rightharpoonup> ServiceStatus)" where
  "initServiceStatus [] now tbl = tbl"
| "initServiceStatus (service # rest) now tbl =
     initServiceStatus rest now
       (tbl(ServiceConfig.Name service \<mapsto> initialStatus (ServiceConfig.Name service) now))"

definition NewMonitor :: "MonitorConfig \<Rightarrow> int \<Rightarrow> Monitor" where
  "NewMonitor cfg now =
     \<lparr>config = cfg, serviceStatus = initServiceStatus (Services cfg) now Map.empty\<rparr>"

section \<open>Sequences of outcomes for one service\<close>

text \<open>
  The scheduler loop of a service (lines 283-293) calls \<open>checkService\<close> again and
  again, and every call ends in one call of \<open>updateServiceStatus\<close>.  An outcome is
  the argument list of such a call; \<open>applyOutcomes\<close> applies a sequence of them to the
  record of one service and returns the events of each call, in order.
\<close>

record outcome =
  ok :: bool
  err :: string
  latency :: int
  at :: clock

fun applyOutcomes ::
  "Monitor \<Rightarrow> string \<Rightarrow> outcome list \<Rightarrow> panic + (Monitor \<times> event list list)" where
  "applyOutcomes m serviceName [] = Inr (m, [])"
| "applyOutcomes m serviceName (x # xs) =
     (case updateServiceStatus m serviceName (ok x) (err x) (latency x) (at x) of
        Inl p \<Rightarrow> Inl p
      | Inr (m', evs) \<Rightarrow>
          (case applyOutcomes m' serviceName xs of
             Inl p \<Rightarrow> Inl p
           | Inr (m'', evss) \<Rightarrow> Inr (m'', evs # evss)))"

section \<open>The probe executor (lines 104-147)\<close>

text \<open>
  The network is the environment of a probe.  \<open>new_request\<close> is the library call
  \<open>http.NewRequest\<close> on a method and an address: \<open>Some\<close> the text of its error, or
  \<open>None\<close> when the request is built.  \<open>do_request k\<close> is what the \<open>k\<close>-th call of
  \<open>client.Do\<close> of this probe returns: the text of a transport error, or the status
  code of the response.
\<close>

datatype attempt_result = TransportError string | Response int

record environment =
  new_request :: "string \<Rightarrow> string \<Rightarrow> string option"
  do_request :: "nat \<Rightarrow> attempt_result"

text \<open>
  What a probe does to the outside is a trace: \<open>Request k\<close> is the \<open>k\<close>-th
  \<open>client.Do\<close>, \<open>Sleep d\<close> a call of \<open>time.Sleep\<close> with the duration \<open>d\<close> in
  nanoseconds.  \<open>time.Sleep\<close> returns at once when \<open>d\<close> is zero or negative.
\<close>

datatype action = is_Request: Request nat | is_Sleep: Sleep int

definition Second :: int where
  "Second = 1000000000"

text \<open>
  \<open>time.Duration\<close> is an \<open>int64\<close> and its product wraps: \<open>int64 x\<close> is the value of
  the integer \<open>x\<close> in 64-bit two's complement.  The argument of the sleeps of lines 132
  and 143 is \<open>time.Duration(service.RetryDelay) * time.Second\<close>.
\<close>

definition int64 :: "int \<Rightarrow> int" where
  "int64 x = (x + 2 ^ 63) mod 2 ^ 64 - 2 ^ 63"

text \<open>The verb \<open>%d\<close> of \<open>fmt.Errorf\<close>: an integer in decimal.\<close>

definition digit_char :: "nat \<Rightarrow> char" where
  "digit_char d = ''0123456789'' ! d"

function fmt_nat :: "nat \<Rightarrow> string" where
  "fmt_nat n = (if n < 10 then [digit_char n] else fmt_nat (n div 10) @ [digit_char (n mod 10)])"
  by pat_completeness auto
termination
  by (relation "measure id") auto

declare fmt_nat.simps [simp del]

definition fmt_d :: "int \<Rightarrow> string" where
  "fmt_d i = (if i < 0 then CHR ''-'' # fmt_nat (nat (- i)) else fmt_nat (nat i))"

text \<open>
  The loop of lines 128-144.  It is left either by the \<open>return\<close> of line 138, after
  a response with the expected status, or by its condition, with the last error
  (\<open>None\<close> is the \<open>nil\<close> that \<open>lastErr\<close> starts with).
\<close>

datatype loop_exit = Matched | Exhausted "string option"

function retry_loop ::
  "ServiceConfig \<Rightarrow> (nat \<Rightarrow> attempt_result) \<Rightarrow> int \<Rightarrow> string option
     \<Rightarrow> action list \<times> loop_exit" where
  "retry_loop service do attempt lastErr =
     (if attempt < RetryAttempts service then
        (case do (nat attempt) of
           TransportError e \<Rightarrow>
             (case retry_loop service do (attempt + 1) (Some e) of
                (tr, ex) \<Rightarrow>
                  (Request (nat attempt) # Sleep (int64 (RetryDelay service * Second)) # tr, ex))
         | Response statusCode \<Rightarrow>
             if statusCode = ExpectedStatus service then ([Request (nat attempt)], Matched)
             else
               (case retry_loop service do (attempt + 1)
                       (Some (''unexpected status code: '' @ fmt_d statusCode)) of
                  (tr, ex) \<Rightarrow>
                    (Request (nat attempt) # Sleep (int64 (RetryDelay service * Second)) # tr, ex)))
      else ([], Exhausted lastErr))"
  by pat_completeness auto
termination
  by (relation "measure (\<lambda>(service, do, attempt, lastErr). nat (RetryAttempts service - attempt))")
     auto

declare retry_loop.simps [simp del]

text \<open>
  \<open>checkService\<close> returns the trace of the probe and what its one call of
  \<open>updateServiceStatus\<close> returns; \<open>elapsed\<close> is the value of \<open>time.Since(startTime)\<close>
  at that call.  Line 146 calls \<open>Error\<close> on \<open>lastErr\<close>: on \<open>nil\<close> that is a panic.
\<close>

definition checkService ::
  "Monitor \<Rightarrow> ServiceConfig \<Rightarrow> environment \<Rightarrow> int \<Rightarrow> clock
     \<Rightarrow> action list \<times> (panic + (Monitor \<times> event list))" where
  "checkService m service env elapsed clk =
     (case new_request env (Method service) (URL service) of
        Some e \<Rightarrow>
          ([], updateServiceStatus m (ServiceConfig.Name service) False e elapsed clk)
      | None \<Rightarrow>
          (case retry_loop service (do_request env) 0 None of
             (tr, Matched) \<Rightarrow>
               (tr, updateServiceStatus m (ServiceConfig.Name service) True [] elapsed clk)
           | (tr, Exhausted None) \<Rightarrow> (tr, Inl NilPointerDereference)
           | (tr, Exhausted (Some e)) \<Rightarrow>
               (tr, updateServiceStatus m (ServiceConfig.Name service) False e elapsed clk)))"

section \<open>Vocabulary of the properties\<close>

subsection \<open>Events along a sequence of outcomes\<close>

datatype event_kind = Outage | Recovery

fun kind_of :: "event \<Rightarrow> event_kind" where
  "kind_of (OutageStarted service message calls) = Outage"
| "kind_of (Recovered service duration calls) = Recovery"

text \<open>
  Outcome \<open>i\<close> opens a maximal contiguous run of failures when it is a failure and
  the outcome before it, if there is one, is a success: every maximal run has exactly
  one such outcome, its first.  Outcome \<open>i\<close> is a Down-to-Up transition when it is a
  success that follows a failure.
\<close>

definition first_failure :: "outcome list \<Rightarrow> nat \<Rightarrow> bool" where
  "first_failure os i = (\<not> ok (os ! i) \<and> (i = 0 \<or> ok (os ! (i - 1))))"

definition down_to_up :: "outcome list \<Rightarrow> nat \<Rightarrow> bool" where
  "down_to_up os i = (ok (os ! i) \<and> 0 < i \<and> \<not> ok (os ! (i - 1)))"

text \<open>
  \<open>alternates opn ks\<close>: the kinds \<open>ks\<close> alternate between outage and recovery,
  beginning with a recovery when an outage is open (\<open>opn\<close>) and with an outage when
  none is.
\<close>

fun alternates :: "bool \<Rightarrow> event_kind list \<Rightarrow> bool" where
  "alternates opn [] = True"
| "alternates opn (Outage # ks) = (\<not> opn \<and> alternates True ks)"
| "alternates opn (Recovery # ks) = (opn \<and> alternates False ks)"

text \<open>The kinds of the events of one call, by the health before and the outcome.\<close>

definition expected_kinds :: "bool \<times> bool \<Rightarrow> event_kind list" where
  "expected_kinds pb =
     (if fst pb \<and> \<not> snd pb then [Outage]
      else if \<not> fst pb \<and> snd pb then [Recovery] else [])"

text \<open>The number of failures at the end of a sequence: the length of the run that is open.\<close>

definition trailing_failures :: "outcome list \<Rightarrow> nat" where
  "trailing_failures os = length (takeWhile (\<lambda>x. \<not> ok x) (rev os))"

text \<open>The error text of the most recent failure of a sequence, empty when there is none.\<close>

definition last_failure_error :: "outcome list \<Rightarrow> string" where
  "last_failure_error os =
     (case filter (\<lambda>x. \<not> ok x) (rev os) of [] \<Rightarrow> [] | x # xs \<Rightarrow> err x)"

text \<open>The number of outage-start events after the last recovery event of a history.\<close>

definition outage_starts_since_recovery :: "event list \<Rightarrow> nat" where
  "outage_starts_since_recovery history =
     length (filter is_OutageStarted (takeWhile (\<lambda>e. \<not> is_Recovered e) (rev history)))"

text \<open>
  The states of the record of service \<open>n\<close> that the tracker can reach, each with the
  events emitted on the way: the monitor of \<open>NewMonitor\<close>, and whatever a call of
  \<open>updateServiceStatus\<close> for \<open>n\<close> makes of a reachable state.
\<close>

inductive reachable :: "MonitorConfig \<Rightarrow> string \<Rightarrow> Monitor \<Rightarrow> event list \<Rightarrow> bool"
  for cfg :: MonitorConfig and n :: string where
  start: "n \<in> ServiceConfig.Name ` set (Services cfg) \<Longrightarrow> reachable cfg n (NewMonitor cfg t0) []"
| step: "reachable cfg n m history \<Longrightarrow>
         updateServiceStatus m n status errMsg responseTime clk = Inr (m', evs) \<Longrightarrow>
         reachable cfg n m' (history @ evs)"

text \<open>The record of a service after a run, when the run did not panic.\<close>

definition record_after :: "panic + (Monitor \<times> 'a) \<Rightarrow> string \<Rightarrow> ServiceStatus option" where
  "record_after r n = (case r of Inl p \<Rightarrow> None | Inr (m, x) \<Rightarrow> serviceStatus m n)"

definition events_of :: "panic + (Monitor \<times> 'a) \<Rightarrow> 'a option" where
  "events_of r = (case r of Inl p \<Rightarrow> None | Inr (m, x) \<Rightarrow> Some x)"

subsection \<open>Attempts of a probe\<close>

text \<open>
  An attempt fails when the transport fails or the status is not the expected one
  (lines 130 and 136); \<open>attempt_error\<close> is the error the loop records for it (lines
  131 and 141).
\<close>

definition attempt_failed :: "ServiceConfig \<Rightarrow> attempt_result \<Rightarrow> bool" where
  "attempt_failed service r =
     (case r of TransportError e \<Rightarrow> True
      | Response statusCode \<Rightarrow> statusCode \<noteq> ExpectedStatus service)"

definition attempt_error :: "attempt_result \<Rightarrow> string" where
  "attempt_error r =
     (case r of TransportError e \<Rightarrow> e
      | Response statusCode \<Rightarrow> ''unexpected status code: '' @ fmt_d statusCode)"

subsection \<open>A concrete configuration\<close>

text \<open>The service and the backends of the README, and inputs over them.\<close>

definition example_service :: ServiceConfig where
  "example_service =
     \<lparr>ServiceConfig.Name = ''API Service'', URL = ''https://api.example.com/health'',
      Method = ''GET'', Headers = [(''Authorization'', ''Bearer token123'')],
      ExpectedStatus = 200, Timeout = 5, CheckInterval = 30, RetryAttempts = 3,
      RetryDelay = 1, CriticalService = True\<rparr>"

definition example_config :: MonitorConfig where
  "example_config =
     \<lparr>Services = [example_service],
      Alerts = \<lparr>Slack = \<lparr>WebhookURL = ''https://hooks.slack.com/services/X'',
                         Channels = [''#incidents'', ''#sre-team'']\<rparr>,
                Email = \<lparr>SMTPServer = [], SMTPPort = 0, Username = [], Password = [],
                         Recipients = []\<rparr>,
                PagerDuty = \<lparr>ServiceKey = ''service-key'', APIKey = ''api-key''\<rparr>\<rparr>\<rparr>"

definition clock_at :: "int \<Rightarrow> clock" where
  "clock_at t = \<lparr>now_check = t, now_recovery = t, now_since = t\<rparr>"

definition failure :: "string \<Rightarrow> int \<Rightarrow> outcome" where
  "failure e t = \<lparr>ok = False, err = e, latency = 0, at = clock_at t\<rparr>"

definition success :: "int \<Rightarrow> outcome" where
  "success t = \<lparr>ok = True, err = [], latency = 0, at = clock_at t\<rparr>"

definition example_outcomes :: "outcome list" where
  "example_outcomes =
     [failure ''timeout'' (100 * Second), failure ''refused'' (130 * Second),
      success (400 * Second), failure ''timeout'' (430 * Second)]"

text \<open>A second, non-critical service beside the first, with the same backends.\<close>

definition batch_service :: ServiceConfig where
  "batch_service =
     \<lparr>ServiceConfig.Name = ''Batch Service'', URL = ''https://batch.example.com/health'',
      Method = ''GET'', Headers = [], ExpectedStatus = 200, Timeout = 5, CheckInterval = 60,
      RetryAttempts = 2, RetryDelay = 1, CriticalService = False\<rparr>"

definition two_services :: MonitorConfig where
  "two_services = example_config\<lparr>Services := [example_service, batch_service]\<rparr>"

text \<open>A network that answers every request with status 500.\<close>

definition always_500 :: environment where
  "always_500 = \<lparr>new_request = (\<lambda>method url. None), do_request = (\<lambda>k. Response 500)\<rparr>"

text \<open>A network in which the request cannot be built.\<close>

definition invalid_method :: environment where
  "invalid_method =
     \<lparr>new_request = (\<lambda>method url. Some ''net/http: invalid method''),
      do_request = (\<lambda>k. Response 200)\<rparr>"

section \<open>The monitor at start-up\<close>

lemma store_lookup [simp]: "serviceStatus (store m n s) n = Some s"
  by (simp add: store_def)

lemma store_config [simp]: "config (store m n s) = config m"
  by (simp add: store_def)

lemma initServiceStatus_lookup:
  "initServiceStatus ss now tbl n =
     (if n \<in> ServiceConfig.Name ` set ss then Some (initialStatus n now) else tbl n)"
  by (induction ss arbitrary: tbl) auto

lemma NewMonitor_lookup:
  "n \<in> ServiceConfig.Name ` set (Services cfg) \<Longrightarrow>
     serviceStatus (NewMonitor cfg now) n = Some (initialStatus n now)"
  by (simp add: NewMonitor_def initServiceStatus_lookup)

lemma example_service_configured:
  "''API Service'' \<in> ServiceConfig.Name ` set (Services example_config)"
  by (simp add: example_config_def example_service_def)

section \<open>Events of the status tracker\<close>

text \<open>
  One call on a record whose alert flag is set exactly when it is down: the call
  returns, the flag is again set exactly when the record is down, and the events are
  those of the change of health.
\<close>

lemma update_step:
  assumes "serviceStatus m n = Some s" and "AlertSent s = (\<not> Status s)"
  shows "\<exists>m' evs s'. updateServiceStatus m n b e rt clk = Inr (m', evs)
           \<and> config m' = config m
           \<and> serviceStatus m' n = Some s' \<and> Status s' = b \<and> AlertSent s' = (\<not> b)
           \<and> map kind_of evs = expected_kinds (Status s, b)"
  using assms
  by (cases b; cases "Status s")
     (simp_all add: updateServiceStatus_def sendRecoveryAlert_def expected_kinds_def Let_def)

lemma apply_kinds:
  assumes "serviceStatus m n = Some s" and "AlertSent s = (\<not> Status s)"
  shows "\<exists>m' evss. applyOutcomes m n os = Inr (m', evss)
           \<and> map (map kind_of) evss
               = map expected_kinds (zip (Status s # map ok os) (map ok os))"
  using assms
proof (induction os arbitrary: m s)
  case Nil
  then show ?case by simp
next
  case (Cons x xs)
  from update_step [OF Cons.prems, of "ok x" "err x" "latency x" "at x"]
  obtain m1 evs s1 where
    u: "updateServiceStatus m n (ok x) (err x) (latency x) (at x) = Inr (m1, evs)"
    and s1: "serviceStatus m1 n = Some s1" "Status s1 = ok x" "AlertSent s1 = (\<not> ok x)"
    and k: "map kind_of evs = expected_kinds (Status s, ok x)"
    by blast
  from s1 have inv1: "AlertSent s1 = (\<not> Status s1)" by simp
  from Cons.IH [OF s1(1) inv1]
  obtain m2 evss where
    r: "applyOutcomes m1 n xs = Inr (m2, evss)"
    and ks: "map (map kind_of) evss
               = map expected_kinds (zip (Status s1 # map ok xs) (map ok xs))"
    by blast
  show ?case using u r k ks s1(2) by simp
qed

lemma expected_kinds_nth:
  assumes "i < length bs"
  shows "map expected_kinds (zip (p # bs) bs) ! i =
           expected_kinds (if i = 0 then p else bs ! (i - 1), bs ! i)"
  using assms by (simp add: nth_Cons')

lemma alternates_expected_kinds:
  "alternates (\<not> p) (concat (map expected_kinds (zip (p # bs) bs)))"
proof (induction bs arbitrary: p)
  case Nil
  then show ?case by simp
next
  case (Cons b bs)
  from Cons [of b] show ?case
    by (cases p; cases b) (simp_all add: expected_kinds_def)
qed

lemma count_concat_nth:
  "length (filter P (concat xss)) = (\<Sum>i < length xss. length (filter P (xss ! i)))"
proof (induction xss rule: rev_induct)
  case Nil
  then show ?case by simp
next
  case (snoc xs xss)
  then show ?case by (simp add: nth_append)
qed

lemma count_indices:
  "length (filter Q [0..<n]) = (\<Sum>i < n. if Q i then 1 else 0)"
  by (induction n) simp_all

lemma count_outages:
  "length (filter is_OutageStarted evs) = length (filter (\<lambda>k. k = Outage) (map kind_of evs))"
proof (induction evs)
  case Nil
  then show ?case by simp
next
  case (Cons e evs)
  then show ?case by (cases e) simp_all
qed

lemma count_recoveries:
  "length (filter is_Recovered evs) = length (filter (\<lambda>k. k = Recovery) (map kind_of evs))"
proof (induction evs)
  case Nil
  then show ?case by simp
next
  case (Cons e evs)
  then show ?case by (cases e) simp_all
qed

text \<open>
  C1.  For every sequence of outcomes applied to the record of one configured service,
  from the record \<open>NewMonitor\<close> makes: every call returns; the call for outcome \<open>i\<close>
  emits exactly one outage-start event when \<open>i\<close> is the first failure of a maximal
  run of failures, exactly one recovery event when \<open>i\<close> is a Down-to-Up transition,
  and nothing otherwise.  So there are as many outage-start events as maximal runs of
  failures and as many recovery events as Down-to-Up transitions, and the events
  alternate, beginning with an outage start: two outage starts never come without a
  recovery between them.
\<close>

theorem outage_events_per_failure_run:
  assumes "n \<in> ServiceConfig.Name ` set (Services cfg)"
  shows "\<exists>m' evss.
           applyOutcomes (NewMonitor cfg t0) n os = Inr (m', evss)
         \<and> length evss = length os
         \<and> (\<forall>i < length os.
               map kind_of (evss ! i) =
                 (if first_failure os i then [Outage]
                  else if down_to_up os i then [Recovery] else []))
         \<and> length (filter is_OutageStarted (concat evss))
               = length (filter (first_failure os) [0..<length os])
         \<and> length (filter is_Recovered (concat evss))
               = length (filter (down_to_up os) [0..<length os])
         \<and> alternates False (map kind_of (concat evss))"
proof -
  let ?s = "initialStatus n t0"
  have present: "serviceStatus (NewMonitor cfg t0) n = Some ?s"
    using assms by (rule NewMonitor_lookup)
  have inv: "AlertSent ?s = (\<not> Status ?s)"
    by (simp add: initialStatus_def)
  have up: "Status ?s = True"
    by (simp add: initialStatus_def)
  from apply_kinds [OF present inv, of os] obtain m' evss where
    run: "applyOutcomes (NewMonitor cfg t0) n os = Inr (m', evss)"
    and ks: "map (map kind_of) evss = map expected_kinds (zip (True # map ok os) (map ok os))"
    unfolding up by blast
  from ks have "length (map (map kind_of) evss)
                  = length (map expected_kinds (zip (True # map ok os) (map ok os)))"
    by simp
  then have len: "length evss = length os" by simp
  have pos: "map kind_of (evss ! i) =
                 (if first_failure os i then [Outage]
                  else if down_to_up os i then [Recovery] else [])" if "i < length os" for i
  proof -
    have "map kind_of (evss ! i) = map (map kind_of) evss ! i"
      using that len by simp
    also have "\<dots> = expected_kinds (if i = 0 then True else map ok os ! (i - 1), map ok os ! i)"
      unfolding ks using that by (simp add: expected_kinds_nth)
    also have "\<dots> = (if first_failure os i then [Outage]
                  else if down_to_up os i then [Recovery] else [])"
      using that by (auto simp: expected_kinds_def first_failure_def down_to_up_def)
    finally show ?thesis .
  qed
  have cO: "length (filter is_OutageStarted (concat evss))
               = length (filter (first_failure os) [0..<length os])"
    unfolding count_concat_nth count_indices len
    by (rule sum.cong) (auto simp: count_outages pos first_failure_def down_to_up_def)
  have cR: "length (filter is_Recovered (concat evss))
               = length (filter (down_to_up os) [0..<length os])"
    unfolding count_concat_nth count_indices len
    by (rule sum.cong) (auto simp: count_recoveries pos first_failure_def down_to_up_def)
  have "map kind_of (concat evss) = concat (map (map kind_of) evss)"
    by (simp add: map_concat)
  with ks alternates_expected_kinds [of True "map ok os"]
  have alt: "alternates False (map kind_of (concat evss))" by simp
  from run len pos cO cR alt show ?thesis by blast
qed

theorem outage_events_per_failure_run_witness:
  "''API Service'' \<in> ServiceConfig.Name ` set (Services example_config)
   \<and> (\<exists>m' evss.
         applyOutcomes (NewMonitor example_config 0) ''API Service'' example_outcomes
           = Inr (m', evss)
       \<and> map (map kind_of) evss = [[Outage], [], [Recovery], [Outage]]
       \<and> length (filter is_OutageStarted (concat evss)) = 2
       \<and> length (filter is_Recovered (concat evss)) = 1)"
proof -
  have cfg: "''API Service'' \<in> ServiceConfig.Name ` set (Services example_config)"
    by (rule example_service_configured)
  from outage_events_per_failure_run [OF cfg, of 0 example_outcomes]
  obtain m' evss where
    run: "applyOutcomes (NewMonitor example_config 0) ''API Service'' example_outcomes
            = Inr (m', evss)"
    and len: "length evss = length example_outcomes"
    and pos: "\<forall>i < length example_outcomes.
               map kind_of (evss ! i) =
                 (if first_failure example_outcomes i then [Outage]
                  else if down_to_up example_outcomes i then [Recovery] else [])"
    and cO: "length (filter is_OutageStarted (concat evss))
               = length (filter (first_failure example_outcomes) [0..<length example_outcomes])"
    and cR: "length (filter is_Recovered (concat evss))
               = length (filter (down_to_up example_outcomes) [0..<length example_outcomes])"
    by blast
  have l4: "length example_outcomes = 4"
    by (simp add: example_outcomes_def)
  have idx: "[0..<4] = [0, 1, 2, Suc 2]"
    by (simp add: upt_rec numeral_eq_Suc)
  have flags: "map ok example_outcomes = [False, False, True, False]"
    by (simp add: example_outcomes_def failure_def success_def)
  have nth: "ok (example_outcomes ! 0) = False" "ok (example_outcomes ! 1) = False"
    "ok (example_outcomes ! 2) = True" "ok (example_outcomes ! Suc 2) = False"
    by (simp_all add: example_outcomes_def failure_def success_def)
  have ff: "map (first_failure example_outcomes) [0, 1, 2, Suc 2] = [True, False, False, True]"
    using nth by (simp add: first_failure_def)
  have du: "map (down_to_up example_outcomes) [0, 1, 2, Suc 2] = [False, False, True, False]"
    using nth by (simp add: down_to_up_def)
  have n_out: "length (filter is_OutageStarted (concat evss)) = 2"
    unfolding cO l4 idx using ff by simp
  have n_rec: "length (filter is_Recovered (concat evss)) = 1"
    unfolding cR l4 idx using du by simp
  have "map (map kind_of) evss = map (\<lambda>i. map kind_of (evss ! i)) [0..<length evss]"
    by (rule nth_equalityI) simp_all
  also have "\<dots> = [[Outage], [], [Recovery], [Outage]]"
    unfolding len l4 idx using pos ff du by (simp add: l4)
  finally have kinds: "map (map kind_of) evss = [[Outage], [], [Recovery], [Outage]]" .
  from cfg run kinds n_out n_rec show ?thesis by simp
qed

section \<open>The record after a sequence of outcomes\<close>

lemma applyOutcomes_append:
  "applyOutcomes m n (xs @ ys) =
     (case applyOutcomes m n xs of
        Inl p \<Rightarrow> Inl p
      | Inr (m', evss) \<Rightarrow>
          (case applyOutcomes m' n ys of
             Inl p \<Rightarrow> Inl p
           | Inr (m'', evss') \<Rightarrow> Inr (m'', evss @ evss')))"
  by (induction xs arbitrary: m) (auto split: sum.splits)

lemma update_fields:
  assumes "serviceStatus m n = Some s"
  shows "\<exists>m' evs s'. updateServiceStatus m n b e rt clk = Inr (m', evs)
           \<and> serviceStatus m' n = Some s' \<and> Status s' = b
           \<and> FailureCount s' = (if b then (if Status s then FailureCount s else 0)
                                  else FailureCount s + 1)
           \<and> LastError s' = (if b then LastError s else e)"
  using assms
  by (cases b; cases "Status s")
     (simp_all add: updateServiceStatus_def sendRecoveryAlert_def Let_def)

lemma trailing_failures_snoc:
  "trailing_failures (xs @ [x]) = (if ok x then 0 else Suc (trailing_failures xs))"
  by (simp add: trailing_failures_def)

lemma last_failure_error_snoc:
  "last_failure_error (xs @ [x]) = (if ok x then last_failure_error xs else err x)"
  by (simp add: last_failure_error_def)

lemma final_record:
  assumes "n \<in> ServiceConfig.Name ` set (Services cfg)"
  shows "\<exists>m' evss s'. applyOutcomes (NewMonitor cfg t0) n os = Inr (m', evss)
           \<and> serviceStatus m' n = Some s'
           \<and> Status s' = (os = [] \<or> ok (last os))
           \<and> FailureCount s' = int (trailing_failures os)
           \<and> LastError s' = last_failure_error os"
proof (induction os rule: rev_induct)
  case Nil
  show ?case
    using NewMonitor_lookup [OF assms, of t0]
    by (simp add: initialStatus_def trailing_failures_def last_failure_error_def)
next
  case (snoc x xs)
  then obtain m1 evss s1 where
    r: "applyOutcomes (NewMonitor cfg t0) n xs = Inr (m1, evss)"
    and s1: "serviceStatus m1 n = Some s1"
    and st: "Status s1 = (xs = [] \<or> ok (last xs))"
    and fc: "FailureCount s1 = int (trailing_failures xs)"
    and le: "LastError s1 = last_failure_error xs"
    by blast
  from update_fields [OF s1, of "ok x" "err x" "latency x" "at x"]
  obtain m2 evs s2 where
    u: "updateServiceStatus m1 n (ok x) (err x) (latency x) (at x) = Inr (m2, evs)"
    and s2: "serviceStatus m2 n = Some s2" "Status s2 = ok x"
    and fc2: "FailureCount s2 = (if ok x then (if Status s1 then FailureCount s1 else 0)
                                  else FailureCount s1 + 1)"
    and le2: "LastError s2 = (if ok x then LastError s1 else err x)"
    by blast
  have up0: "trailing_failures xs = 0" if "Status s1"
  proof (cases xs rule: rev_cases)
    case Nil
    then show ?thesis by (simp add: trailing_failures_def)
  next
    case (snoc ys y)
    with that st show ?thesis by (simp add: trailing_failures_snoc)
  qed
  have run: "applyOutcomes (NewMonitor cfg t0) n (xs @ [x]) = Inr (m2, evss @ [evs])"
    by (simp add: applyOutcomes_append r u)
  have c: "FailureCount s2 = int (trailing_failures (xs @ [x]))"
    using fc2 fc up0 by (simp add: trailing_failures_snoc)
  have l: "LastError s2 = last_failure_error (xs @ [x])"
    using le2 le by (simp add: last_failure_error_snoc)
  from run s2 c l show ?case by simp
qed

text \<open>
  The counter never exceeds the number of outcomes applied, so the unbounded integer
  of the model and the machine integer of the source agree on every run that is
  shorter than the range of the machine integer.
\<close>

lemma FailureCount_bounded:
  assumes "n \<in> ServiceConfig.Name ` set (Services cfg)"
  shows "\<exists>m' evss s'. applyOutcomes (NewMonitor cfg t0) n os = Inr (m', evss)
           \<and> serviceStatus m' n = Some s'
           \<and> 0 \<le> FailureCount s' \<and> FailureCount s' \<le> int (length os)"
proof -
  from final_record [OF assms, of t0 os] obtain m' evss s' where
    r: "applyOutcomes (NewMonitor cfg t0) n os = Inr (m', evss)"
    and s: "serviceStatus m' n = Some s'"
    and c: "FailureCount s' = int (trailing_failures os)"
    by blast
  have "trailing_failures os \<le> length os"
    unfolding trailing_failures_def
    using length_takeWhile_le [of "\<lambda>x. \<not> ok x" "rev os"] by simp
  with r s c show ?thesis by simp
qed



text \<open>
  C6, as the specification states it: the last error of a healthy record is empty.
  It fails on the recovery transition, which leaves \<open>LastError\<close> as it is: after a
  failure with the error \<open>timeout\<close> and a success, the record is Up and its last error
  is still \<open>timeout\<close>.
\<close>

theorem last_error_kept_counterexample:
  "map_option (\<lambda>s. (Status s, LastError s))
     (record_after
        (applyOutcomes (NewMonitor example_config 0) ''API Service''
           [failure ''timeout'' (100 * Second), success (400 * Second)])
        ''API Service'')
   = Some (True, ''timeout'')"
  by (simp add: record_after_def updateServiceStatus_def sendRecoveryAlert_def store_def
        NewMonitor_def initialStatus_def example_config_def example_service_def
        failure_def success_def clock_at_def Let_def)

text \<open>
  The last error of a record is whatever text the most recent failure carried: a
  failure with an empty text leaves the last error empty.
\<close>

lemma empty_error_text_is_kept_too:
  "map_option (\<lambda>s. (Status s, LastError s))
     (record_after
        (applyOutcomes (NewMonitor example_config 0) ''API Service''
           [failure ''timeout'' (100 * Second), failure [] (130 * Second),
            success (400 * Second)])
        ''API Service'')
   = Some (True, [])"
  by (simp add: record_after_def updateServiceStatus_def sendRecoveryAlert_def store_def
        NewMonitor_def initialStatus_def example_config_def example_service_def
        failure_def success_def clock_at_def Let_def)

text \<open>
  C6, amended.  The tracker writes \<open>LastError\<close> on failures only: after every sequence
  of outcomes for a configured service the last error of its record, healthy or not,
  is the error text of the most recent failure, and it is empty when no failure has
  been applied.  One more failure sets it to the error text of that failure; one more
  success, the recovery from Down to Up included, leaves it as it is.
\<close>

theorem last_error_is_last_failure:
  assumes "n \<in> ServiceConfig.Name ` set (Services cfg)"
  shows "\<exists>m' evss s'.
           applyOutcomes (NewMonitor cfg t0) n os = Inr (m', evss)
         \<and> serviceStatus m' n = Some s'
         \<and> LastError s' = last_failure_error os
         \<and> ((\<forall>x \<in> set os. ok x) \<longrightarrow> LastError s' = [])
         \<and> (\<forall>x. \<exists>m2 evss2 s2.
                applyOutcomes (NewMonitor cfg t0) n (os @ [x]) = Inr (m2, evss2)
              \<and> serviceStatus m2 n = Some s2
              \<and> LastError s2 = (if ok x then LastError s' else err x))"
proof -
  from final_record [OF assms, of t0 os] obtain m' evss s' where
    r: "applyOutcomes (NewMonitor cfg t0) n os = Inr (m', evss)"
    and s: "serviceStatus m' n = Some s'"
    and l: "LastError s' = last_failure_error os"
    by blast
  have e: "last_failure_error os = []" if "\<forall>x \<in> set os. ok x"
  proof -
    from that have "filter (\<lambda>x. \<not> ok x) (rev os) = []"
      by (simp add: filter_empty_conv)
    then show ?thesis by (simp add: last_failure_error_def)
  qed
  have next_one: "\<exists>m2 evss2 s2.
                applyOutcomes (NewMonitor cfg t0) n (os @ [x]) = Inr (m2, evss2)
              \<and> serviceStatus m2 n = Some s2
              \<and> LastError s2 = (if ok x then LastError s' else err x)" for x
  proof -
    from final_record [OF assms, of t0 "os @ [x]"] obtain m2 evss2 s2 where
      r2: "applyOutcomes (NewMonitor cfg t0) n (os @ [x]) = Inr (m2, evss2)"
      and s2: "serviceStatus m2 n = Some s2"
      and l2: "LastError s2 = last_failure_error (os @ [x])"
      by blast
    from l2 l have "LastError s2 = (if ok x then LastError s' else err x)"
      by (simp add: last_failure_error_snoc)
    with r2 s2 show ?thesis by simp
  qed
  from r s l e next_one show ?thesis by simp
qed

theorem last_error_is_last_failure_witness:
  "''API Service'' \<in> ServiceConfig.Name ` set (Services example_config)
   \<and> (\<exists>m' evss s'.
         applyOutcomes (NewMonitor example_config 0) ''API Service''
           [failure ''timeout'' (100 * Second), success (400 * Second)] = Inr (m', evss)
       \<and> serviceStatus m' ''API Service'' = Some s'
       \<and> LastError s' = ''timeout'')"
proof -
  have cfg: "''API Service'' \<in> ServiceConfig.Name ` set (Services example_config)"
    by (rule example_service_configured)
  from last_error_is_last_failure
         [OF cfg, of 0 "[failure ''timeout'' (100 * Second), success (400 * Second)]"]
  obtain m' evss s' where
    r: "applyOutcomes (NewMonitor example_config 0) ''API Service''
          [failure ''timeout'' (100 * Second), success (400 * Second)] = Inr (m', evss)"
    and s: "serviceStatus m' ''API Service'' = Some s'"
    and l: "LastError s'
              = last_failure_error [failure ''timeout'' (100 * Second), success (400 * Second)]"
    by blast
  have "LastError s' = ''timeout''"
    unfolding l by (simp add: last_failure_error_def failure_def success_def)
  with cfg r s show ?thesis by simp
qed

section \<open>The alert flag\<close>

lemma starts_snoc:
  "outage_starts_since_recovery (h @ [OutageStarted a b c]) = Suc (outage_starts_since_recovery h)"
  "outage_starts_since_recovery (h @ [Recovered a d c]) = 0"
  by (simp_all add: outage_starts_since_recovery_def)

lemma update_inv_step:
  assumes "serviceStatus m n = Some s" and "AlertSent s = (\<not> Status s)"
  shows "\<exists>m' s' evs. updateServiceStatus m n b e rt clk = Inr (m', evs)
           \<and> serviceStatus m' n = Some s' \<and> Status s' = b \<and> AlertSent s' = (\<not> b)
           \<and> outage_starts_since_recovery (h @ evs) =
               (if Status s \<and> \<not> b then Suc (outage_starts_since_recovery h)
                else if \<not> Status s \<and> b then 0 else outage_starts_since_recovery h)"
  using assms
  by (cases b; cases "Status s")
     (simp_all add: updateServiceStatus_def sendRecoveryAlert_def Let_def starts_snoc)

text \<open>
  The invariant that every transition keeps: the flag is set exactly when the record
  is down, and the number of outage starts since the last recovery is 1 when the flag
  is set and 0 when it is not.
\<close>

lemma reachable_inv:
  assumes "reachable cfg n m history"
  shows "\<exists>s. serviceStatus m n = Some s \<and> AlertSent s = (\<not> Status s)
           \<and> outage_starts_since_recovery history = (if AlertSent s then 1 else 0)"
  using assms
proof (induction rule: reachable.induct)
  case (start t0)
  then show ?case
    by (simp add: NewMonitor_lookup initialStatus_def outage_starts_since_recovery_def)
next
  case (step m history status errMsg responseTime clk m' evs)
  then obtain s where s: "serviceStatus m n = Some s" "AlertSent s = (\<not> Status s)"
    and c: "outage_starts_since_recovery history = (if AlertSent s then 1 else 0)"
    by blast
  from update_inv_step [OF s, of status errMsg responseTime clk history]
  obtain m1 s1 evs1 where
    u: "updateServiceStatus m n status errMsg responseTime clk = Inr (m1, evs1)"
    and s1: "serviceStatus m1 n = Some s1" "Status s1 = status" "AlertSent s1 = (\<not> status)"
    and c1: "outage_starts_since_recovery (history @ evs1) =
               (if Status s \<and> \<not> status then Suc (outage_starts_since_recovery history)
                else if \<not> Status s \<and> status then 0 else outage_starts_since_recovery history)"
    by blast
  from u step.hyps(2) have eq: "m' = m1" "evs = evs1" by simp_all
  have "outage_starts_since_recovery (history @ evs) = (if AlertSent s1 then 1 else 0)"
    unfolding eq c1 c s(2) s1(3) by (cases status; cases "Status s") simp_all
  with s1 show ?case unfolding eq by simp
qed

text \<open>
  C8.  In every state that the record of a configured service reaches from the record
  of \<open>NewMonitor\<close> (Up, alert flag not set) by calls of \<open>updateServiceStatus\<close>, the
  alert flag is set only while the record is Down, and at most one outage-start event
  has been emitted since the last recovery event.  More precisely the flag is set
  exactly when the record is Down, and then exactly one outage start has been emitted
  since the last recovery.
\<close>

theorem alert_flag_invariant:
  assumes "reachable cfg n m history"
  shows "\<exists>s. serviceStatus m n = Some s
           \<and> (AlertSent s \<longrightarrow> \<not> Status s)
           \<and> outage_starts_since_recovery history \<le> 1
           \<and> AlertSent s = (\<not> Status s)
           \<and> outage_starts_since_recovery history = (if Status s then 0 else 1)"
proof -
  from reachable_inv [OF assms] obtain s where
    s: "serviceStatus m n = Some s" and a: "AlertSent s = (\<not> Status s)"
    and c: "outage_starts_since_recovery history = (if AlertSent s then 1 else 0)"
    by blast
  from s a c show ?thesis by simp
qed

theorem alert_flag_invariant_witness:
  "\<exists>m history.
      reachable example_config ''API Service'' m history
    \<and> map kind_of history = [Outage]
    \<and> (\<exists>s. serviceStatus m ''API Service'' = Some s \<and> \<not> Status s \<and> AlertSent s
           \<and> outage_starts_since_recovery history = 1)"
proof -
  let ?m0 = "NewMonitor example_config 0"
  let ?s0 = "initialStatus ''API Service'' 0"
  have r0: "reachable example_config ''API Service'' ?m0 []"
    using example_service_configured by (rule reachable.start)
  have p0: "serviceStatus ?m0 ''API Service'' = Some ?s0"
    using example_service_configured by (rule NewMonitor_lookup)
  have i0: "AlertSent ?s0 = (\<not> Status ?s0)"
    by (simp add: initialStatus_def)
  from update_step [OF p0 i0, of False "''timeout''" 0 "clock_at (100 * Second)"]
  obtain m1 evs s1 where
    u: "updateServiceStatus ?m0 ''API Service'' False ''timeout'' 0 (clock_at (100 * Second))
          = Inr (m1, evs)"
    and s1: "serviceStatus m1 ''API Service'' = Some s1" "Status s1 = False"
    and k: "map kind_of evs = expected_kinds (Status ?s0, False)"
    by blast
  from reachable.step [OF r0 u]
  have r1: "reachable example_config ''API Service'' m1 evs" by simp
  have k1: "map kind_of evs = [Outage]"
    unfolding k by (simp add: expected_kinds_def initialStatus_def)
  from alert_flag_invariant [OF r1] s1
  have "\<not> Status s1 \<and> AlertSent s1 \<and> outage_starts_since_recovery evs = 1"
    by simp
  with s1(1) have "\<exists>s. serviceStatus m1 ''API Service'' = Some s \<and> \<not> Status s \<and> AlertSent s
           \<and> outage_starts_since_recovery evs = 1"
    by simp
  with r1 k1 have "reachable example_config ''API Service'' m1 evs
    \<and> map kind_of evs = [Outage]
    \<and> (\<exists>s. serviceStatus m1 ''API Service'' = Some s \<and> \<not> Status s \<and> AlertSent s
           \<and> outage_starts_since_recovery evs = 1)"
    by simp
  then show ?thesis by - (rule exI, rule exI, assumption)
qed
section \<open>The duration of a recovery\<close>

text \<open>
  Whatever the record has been through, the duration of a recovery event is the time
  between two readings of the clock inside the very call that emits it: line 170
  stores the first in \<open>RecoveryTime\<close> and line 234 subtracts it from the second.
\<close>

lemma recovered_duration_is_clock_gap:
  assumes "updateServiceStatus m n status errMsg responseTime clk = Inr (m', evs)"
    and "Recovered service d calls \<in> set evs"
  shows "d = now_since clk - now_recovery clk"
proof (cases "serviceStatus m n")
  case None
  with assms(1) show ?thesis by (simp add: updateServiceStatus_def)
next
  case (Some s)
  show ?thesis
  proof (cases status)
    case False
    with Some assms show ?thesis
      by (cases "Status s \<and> \<not> AlertSent s")
         (auto simp: updateServiceStatus_def Let_def)
  next
    case True
    show ?thesis
    proof (cases "Status s")
      case True
      with \<open>status\<close> Some assms show ?thesis
        by (simp add: updateServiceStatus_def Let_def)
    next
      case False
      with \<open>status\<close> Some assms show ?thesis
        by (auto simp: updateServiceStatus_def sendRecoveryAlert_def Let_def)
    qed
  qed
qed

text \<open>
  C2.  The service fails at second 100 and is probed healthy at second 400, so the
  outage has lasted 300 seconds.  The clock reads second 400 at line 156, 1000
  nanoseconds later at line 170 and 3000 nanoseconds later at line 234.  The recovery
  event and the recovery message carry a duration of 2000 nanoseconds.
\<close>

theorem recovery_duration_at_failing_input:
  "events_of
     (applyOutcomes (NewMonitor example_config 0) ''API Service''
        [failure ''timeout'' (100 * Second),
         \<lparr>ok = True, err = [], latency = 0,
          at = \<lparr>now_check = 400 * Second, now_recovery = 400 * Second + 1000,
                now_since = 400 * Second + 3000\<rparr>\<rparr>])
   = Some [[OutageStarted ''API Service'' ''timeout''
              [SlackAlert ''API Service'' ''timeout'',
               PagerDutyTrigger ''API Service'' ''timeout'']],
           [Recovered ''API Service'' 2000
              [SlackRecovery ''API Service'' 2000, PagerDutyResolve ''API Service'']]]"
  by code_simp

section \<open>The retry loop\<close>

text \<open>
  A product within the range of \<open>int64\<close> is not changed.  A retry delay of up to
  9223372036 seconds is within it; with 9223372037 seconds the product wraps to a
  negative duration, with which \<open>time.Sleep\<close> does not wait.
\<close>

lemma int64_in_range:
  assumes "- (2 ^ 63) \<le> x" and "x < 2 ^ 63"
  shows "int64 x = x"
proof -
  have "0 \<le> x + 2 ^ 63" and "x + 2 ^ 63 < 2 ^ 64"
    using assms by simp_all
  then have "(x + 2 ^ 63) mod 2 ^ 64 = x + 2 ^ 63"
    by (rule mod_pos_pos_trivial)
  then show ?thesis by (simp add: int64_def)
qed

lemma retry_delay_in_range:
  assumes "0 \<le> d" and "d \<le> 9223372036"
  shows "int64 (d * Second) = d * Second"
proof (rule int64_in_range)
  from assms(1) have "0 \<le> d * Second" by (simp add: Second_def)
  then show "- (2 ^ 63) \<le> d * Second" by simp
  from assms(2) have "d * Second \<le> 9223372036 * Second"
    by (simp add: Second_def)
  then show "d * Second < 2 ^ 63" by (simp add: Second_def)
qed

lemma retry_delay_wraps:
  "int64 (9223372037 * Second) = - 9223372036709551616"
  by (simp add: int64_def Second_def)

lemma retry_loop_done:
  "\<not> attempt < RetryAttempts service \<Longrightarrow>
     retry_loop service do attempt lastErr = ([], Exhausted lastErr)"
  by (subst retry_loop.simps) simp

lemma retry_loop_failed:
  assumes "attempt < RetryAttempts service" and "attempt_failed service (do (nat attempt))"
  shows "retry_loop service do attempt lastErr =
           (Request (nat attempt) # Sleep (int64 (RetryDelay service * Second))
              # fst (retry_loop service do (attempt + 1) (Some (attempt_error (do (nat attempt))))),
            snd (retry_loop service do (attempt + 1) (Some (attempt_error (do (nat attempt))))))"
  using assms
  by (subst retry_loop.simps)
     (simp add: attempt_failed_def attempt_error_def split: attempt_result.splits prod.splits)

lemma retry_loop_matched:
  assumes "attempt < RetryAttempts service" and "\<not> attempt_failed service (do (nat attempt))"
  shows "retry_loop service do attempt lastErr = ([Request (nat attempt)], Matched)"
  using assms
  by (subst retry_loop.simps)
     (simp add: attempt_failed_def split: attempt_result.splits)

lemma upt_nat_step:
  assumes "0 \<le> a" and "a < N"
  shows "[nat a..<nat N] = nat a # [nat (a + 1)..<nat N]"
proof -
  have "nat a < nat N" using assms by simp
  moreover have "nat (a + 1) = Suc (nat a)" using assms by simp
  ultimately show ?thesis by (simp add: upt_conv_Cons)
qed

text \<open>
  When every attempt that is left fails, the loop makes each of them, sleeps after each
  of them, and leaves with the error of the last one.
\<close>

lemma retry_loop_all_fail:
  assumes "0 \<le> attempt"
    and "\<And>k. nat attempt \<le> k \<Longrightarrow> k < nat (RetryAttempts service)
              \<Longrightarrow> attempt_failed service (do k)"
  shows "retry_loop service do attempt lastErr =
           (concat (map (\<lambda>k. [Request k, Sleep (int64 (RetryDelay service * Second))])
                        [nat attempt..<nat (RetryAttempts service)]),
            Exhausted (if attempt < RetryAttempts service
                       then Some (attempt_error (do (nat (RetryAttempts service) - 1)))
                       else lastErr))"
  using assms
proof (induction "nat (RetryAttempts service - attempt)" arbitrary: attempt lastErr)
  case 0
  then have "\<not> attempt < RetryAttempts service" by simp
  then show ?case by (simp add: retry_loop_done)
next
  case (Suc n)
  then have lt: "attempt < RetryAttempts service" by simp
  have f: "attempt_failed service (do (nat attempt))"
    using Suc.prems lt by simp
  have n: "n = nat (RetryAttempts service - (attempt + 1))" using Suc.hyps(2) by simp
  have nn: "0 \<le> attempt + 1" using Suc.prems by simp
  have rest: "\<And>k. nat (attempt + 1) \<le> k \<Longrightarrow> k < nat (RetryAttempts service) \<Longrightarrow>
                 attempt_failed service (do k)"
    using Suc.prems by simp
  note IH = Suc.hyps(1) [OF n nn rest, of "Some (attempt_error (do (nat attempt)))"]
  have last: "\<not> attempt + 1 < RetryAttempts service \<Longrightarrow>
                nat (RetryAttempts service) - 1 = nat attempt"
    using lt by simp
  have step: "retry_loop service do attempt lastErr =
           (Request (nat attempt) # Sleep (int64 (RetryDelay service * Second))
              # fst (retry_loop service do (attempt + 1) (Some (attempt_error (do (nat attempt))))),
            snd (retry_loop service do (attempt + 1) (Some (attempt_error (do (nat attempt))))))"
    using lt f by (rule retry_loop_failed)
  have u: "[nat attempt..<nat (RetryAttempts service)] =
             nat attempt # [nat (attempt + 1)..<nat (RetryAttempts service)]"
    using Suc.prems(1) lt by (rule upt_nat_step)
  show ?case
    using lt last by (simp only: step IH u) auto
qed

text \<open>In the trace of the loop a sleep follows the request of every failed attempt.\<close>

lemma retry_loop_sleeps:
  assumes "0 \<le> attempt"
    and "i < length (fst (retry_loop service do attempt lastErr))"
    and "fst (retry_loop service do attempt lastErr) ! i = Request k"
    and "attempt_failed service (do k)"
  shows "Suc i < length (fst (retry_loop service do attempt lastErr))
         \<and> fst (retry_loop service do attempt lastErr) ! Suc i = Sleep (int64 (RetryDelay service * Second))"
  using assms
proof (induction "nat (RetryAttempts service - attempt)" arbitrary: attempt lastErr i)
  case 0
  then have "\<not> attempt < RetryAttempts service" by simp
  with "0.prems"(2) show ?case by (simp add: retry_loop_done)
next
  case (Suc n)
  then have lt: "attempt < RetryAttempts service" by simp
  show ?case
  proof (cases "attempt_failed service (do (nat attempt))")
    case False
    with lt have m: "retry_loop service do attempt lastErr = ([Request (nat attempt)], Matched)"
      by (rule retry_loop_matched)
    from Suc.prems(2,3,4) False show ?thesis unfolding m by simp
  next
    case True
    let ?rest = "retry_loop service do (attempt + 1) (Some (attempt_error (do (nat attempt))))"
    from lt True have st: "retry_loop service do attempt lastErr =
        (Request (nat attempt) # Sleep (int64 (RetryDelay service * Second)) # fst ?rest, snd ?rest)"
      by (rule retry_loop_failed)
    have n: "n = nat (RetryAttempts service - (attempt + 1))" using Suc.hyps(2) by simp
    have nn: "0 \<le> attempt + 1" using Suc.prems(1) by simp
    show ?thesis
    proof (cases i)
      case 0
      then show ?thesis unfolding st by simp
    next
      case (Suc j)
      note i = this
      show ?thesis
      proof (cases j)
        case 0
        with i Suc.prems(3) show ?thesis unfolding st by simp
      next
        case (Suc l)
        from Suc.prems(2,3) have "l < length (fst ?rest)" "fst ?rest ! l = Request k"
          unfolding st i Suc by simp_all
        from Suc.hyps(1) [OF n nn this Suc.prems(4)]
        show ?thesis unfolding st i Suc by simp
      qed
    qed
  qed
qed

section \<open>The probe executor\<close>

lemma checkService_trace:
  "fst (checkService m service env elapsed clk) =
     (case new_request env (Method service) (URL service) of
        Some e \<Rightarrow> []
      | None \<Rightarrow> fst (retry_loop service (do_request env) 0 None))"
  by (simp add: checkService_def split: option.splits prod.splits loop_exit.splits)

lemma requests_of_trace:
  "filter is_Request (concat (map (\<lambda>k. [Request k, Sleep d]) ks)) = map Request ks"
  by (induction ks) simp_all

lemma example_trace:
  "fst (checkService (NewMonitor example_config 0) example_service always_500 0 (clock_at 0))
     = [Request 0, Sleep 1000000000, Request 1, Sleep 1000000000,
        Request 2, Sleep 1000000000]"
  by code_simp

text \<open>
  With a retry delay of 9223372037 seconds the argument of the sleep is negative.
\<close>

lemma wrapped_delay_trace:
  "fst (checkService (NewMonitor example_config 0)
          (example_service\<lparr>RetryAttempts := 1, RetryDelay := 9223372037\<rparr>)
          always_500 0 (clock_at 0))
     = [Request 0, Sleep (- 9223372036709551616)]"
  by code_simp

text \<open>
  C3.  When the request is built, the retry count \<open>N\<close> is at least 1 and each of the
  attempts \<open>0, \<dots>, N - 1\<close> fails, the probe issues exactly the \<open>N\<close> requests
  \<open>0, \<dots>, N - 1\<close>, in this order, and reports a failure to the status tracker whose
  error text is the error of attempt \<open>N - 1\<close>, the last one.
\<close>

theorem all_attempts_fail:
  assumes "1 \<le> RetryAttempts service"
    and "new_request env (Method service) (URL service) = None"
    and "\<forall>k < nat (RetryAttempts service). attempt_failed service (do_request env k)"
  shows "filter is_Request (fst (checkService m service env elapsed clk))
           = map Request [0..<nat (RetryAttempts service)]
         \<and> length (filter is_Request (fst (checkService m service env elapsed clk)))
           = nat (RetryAttempts service)
         \<and> snd (checkService m service env elapsed clk)
           = updateServiceStatus m (ServiceConfig.Name service) False
               (attempt_error (do_request env (nat (RetryAttempts service) - 1))) elapsed clk"
proof -
  have loop: "retry_loop service (do_request env) 0 None =
           (concat (map (\<lambda>k. [Request k, Sleep (int64 (RetryDelay service * Second))])
                        [nat 0..<nat (RetryAttempts service)]),
            Exhausted (if 0 < RetryAttempts service
                       then Some (attempt_error (do_request env (nat (RetryAttempts service) - 1)))
                       else None))"
    using assms(3) by (intro retry_loop_all_fail) simp_all
  from assms(1) have pos: "0 < RetryAttempts service" by simp
  show ?thesis
    using assms(2) pos by (simp add: checkService_def loop requests_of_trace)
qed

theorem all_attempts_fail_witness:
  "filter is_Request
     (fst (checkService (NewMonitor example_config 0) example_service always_500 0 (clock_at 0)))
     = [Request 0, Request 1, Request 2]
   \<and> snd (checkService (NewMonitor example_config 0) example_service always_500 0 (clock_at 0))
     = updateServiceStatus (NewMonitor example_config 0) ''API Service'' False
         ''unexpected status code: 500'' 0 (clock_at 0)"
proof -
  have h1: "1 \<le> RetryAttempts example_service"
    by (simp add: example_service_def)
  have h2: "new_request always_500 (Method example_service) (URL example_service) = None"
    by (simp add: always_500_def)
  have h3: "\<forall>k < nat (RetryAttempts example_service).
              attempt_failed example_service (do_request always_500 k)"
    by (simp add: always_500_def attempt_failed_def example_service_def)
  have n: "nat (RetryAttempts example_service) = 3"
    by (simp add: example_service_def)
  have idx: "[0..<3] = [0, 1, 2]"
    by (simp add: upt_rec numeral_eq_Suc)
  have e: "attempt_error (do_request always_500 (3 - 1)) = ''unexpected status code: 500''"
    by code_simp
  have nm: "ServiceConfig.Name example_service = ''API Service''"
    by (simp add: example_service_def)
  from all_attempts_fail [OF h1 h2 h3, of "NewMonitor example_config 0" 0 "clock_at 0"]
  show ?thesis unfolding n idx e nm by simp
qed

text \<open>
  C4, as the specification states it: no wait follows the final failed attempt.  It
  fails with one attempt that fails: the trace of the probe is the request and then
  a sleep of the retry delay of one second, before the failure is reported.
\<close>

theorem wait_after_final_attempt_counterexample:
  "fst (checkService (NewMonitor example_config 0) (example_service\<lparr>RetryAttempts := 1\<rparr>)
          always_500 0 (clock_at 0))
     = [Request 0, Sleep 1000000000]"
  by code_simp

text \<open>
  C4, amended.  Within one probe the executor calls \<open>time.Sleep\<close> after every failed
  attempt, the final one included: in the trace of the probe the request of a failed
  attempt is always followed at once by a sleep, whose argument is the 64-bit product of
  the retry delay and one second.  For a retry delay from 0 to 9223372036 seconds the
  product does not wrap, and the sleep is a wait of the retry delay.
\<close>

theorem wait_after_every_failed_attempt:
  assumes "i < length (fst (checkService m service env elapsed clk))"
    and "fst (checkService m service env elapsed clk) ! i = Request k"
    and "attempt_failed service (do_request env k)"
  shows "Suc i < length (fst (checkService m service env elapsed clk))
         \<and> fst (checkService m service env elapsed clk) ! Suc i
             = Sleep (int64 (RetryDelay service * Second))
         \<and> (0 \<le> RetryDelay service \<and> RetryDelay service \<le> 9223372036 \<longrightarrow>
               fst (checkService m service env elapsed clk) ! Suc i
                 = Sleep (RetryDelay service * Second))"
proof -
  have sl: "Suc i < length (fst (checkService m service env elapsed clk))
         \<and> fst (checkService m service env elapsed clk) ! Suc i
             = Sleep (int64 (RetryDelay service * Second))"
  proof (cases "new_request env (Method service) (URL service)")
    case None
    then have tr: "fst (checkService m service env elapsed clk)
                     = fst (retry_loop service (do_request env) 0 None)"
      by (simp add: checkService_trace)
    from assms show ?thesis
      unfolding tr by (intro retry_loop_sleeps) simp_all
  next
    case (Some e)
    with assms(1) show ?thesis by (simp add: checkService_trace)
  qed
  have "fst (checkService m service env elapsed clk) ! Suc i
          = Sleep (RetryDelay service * Second)"
    if "0 \<le> RetryDelay service" and "RetryDelay service \<le> 9223372036"
    using sl retry_delay_in_range [OF that] by simp
  with sl show ?thesis by simp
qed

theorem wait_after_every_failed_attempt_witness:
  "fst (checkService (NewMonitor example_config 0) example_service always_500 0 (clock_at 0)) ! 4
     = Request 2
   \<and> attempt_failed example_service (do_request always_500 2)
   \<and> length (fst (checkService (NewMonitor example_config 0) example_service always_500 0
                    (clock_at 0))) = 6
   \<and> fst (checkService (NewMonitor example_config 0) example_service always_500 0 (clock_at 0)) ! 5
     = Sleep 1000000000"
proof -
  let ?tr = "fst (checkService (NewMonitor example_config 0) example_service always_500 0
                    (clock_at 0))"
  have h1: "4 < length ?tr" by (simp add: example_trace)
  have h2: "?tr ! 4 = Request 2" by (simp add: example_trace)
  have h3: "attempt_failed example_service (do_request always_500 2)"
    by (simp add: always_500_def attempt_failed_def example_service_def)
  have b: "0 \<le> RetryDelay example_service \<and> RetryDelay example_service \<le> 9223372036"
    by (simp add: example_service_def)
  have d: "RetryDelay example_service * Second = 1000000000"
    by (simp add: example_service_def Second_def)
  have l: "length ?tr = 6" by (simp add: example_trace)
  from wait_after_every_failed_attempt [OF h1 h2 h3] b
  have "?tr ! Suc 4 = Sleep (RetryDelay example_service * Second)" by blast
  then have "?tr ! Suc 4 = Sleep 1000000000" unfolding d .
  then have "?tr ! 5 = Sleep 1000000000" by (simp add: eval_nat_numeral)
  with h2 h3 l show ?thesis by simp
qed

text \<open>
  A retry count that is zero or negative: the body of the loop never runs, and line 146
  calls \<open>Error\<close> on the \<open>nil\<close> that \<open>lastErr\<close> still is.
\<close>

lemma zero_retry_panics:
  assumes "RetryAttempts service \<le> 0"
    and "new_request env (Method service) (URL service) = None"
  shows "checkService m service env elapsed clk = ([], Inl NilPointerDereference)"
  using assms by (simp add: checkService_def retry_loop_done)

text \<open>
  C5.  With a retry count of zero and a request that can be built, the probe makes no
  request and then calls \<open>Error\<close> on the \<open>nil\<close> error of line 127: the executor does
  not complete, it panics at line 146, and no outcome reaches the status tracker.
\<close>

theorem zero_retry_attempts_panic:
  "checkService (NewMonitor example_config 0) (example_service\<lparr>RetryAttempts := 0\<rparr>)
     always_500 0 (clock_at 0)
   = ([], Inl NilPointerDereference)"
  by (simp add: zero_retry_panics always_500_def)

text \<open>
  C10.  When the request cannot be built, the probe issues no request, whatever the
  retry count, and makes the one call of \<open>updateServiceStatus\<close> that reports a failure
  with the error of the construction as its text; for a service that has a record
  this call returns and leaves the record Down with that text as its last error.
\<close>

theorem request_construction_failure:
  assumes "new_request env (Method service) (URL service) = Some e"
  shows "checkService m service env elapsed clk
           = ([], updateServiceStatus m (ServiceConfig.Name service) False e elapsed clk)
         \<and> (\<forall>s. serviceStatus m (ServiceConfig.Name service) = Some s \<longrightarrow>
               (\<exists>m' evs s'.
                   snd (checkService m service env elapsed clk) = Inr (m', evs)
                 \<and> serviceStatus m' (ServiceConfig.Name service) = Some s'
                 \<and> \<not> Status s' \<and> LastError s' = e
                 \<and> FailureCount s' = FailureCount s + 1))"
proof -
  have run: "checkService m service env elapsed clk
           = ([], updateServiceStatus m (ServiceConfig.Name service) False e elapsed clk)"
    using assms by (simp add: checkService_def)
  have "\<exists>m' evs s'.
            snd (checkService m service env elapsed clk) = Inr (m', evs)
          \<and> serviceStatus m' (ServiceConfig.Name service) = Some s'
          \<and> \<not> Status s' \<and> LastError s' = e
          \<and> FailureCount s' = FailureCount s + 1"
    if "serviceStatus m (ServiceConfig.Name service) = Some s" for s
    using update_fields [OF that, of False e elapsed clk] unfolding run by auto
  with run show ?thesis by blast
qed

theorem request_construction_failure_witness:
  "new_request invalid_method (Method example_service) (URL example_service)
     = Some ''net/http: invalid method''
   \<and> fst (checkService (NewMonitor example_config 0) example_service invalid_method 0
            (clock_at 0)) = []
   \<and> map_option (\<lambda>s. (Status s, LastError s, FailureCount s))
        (record_after
           (snd (checkService (NewMonitor example_config 0) example_service invalid_method 0
                   (clock_at 0)))
           ''API Service'')
     = Some (False, ''net/http: invalid method'', 1)"
proof -
  let ?m = "NewMonitor example_config 0"
  have h: "new_request invalid_method (Method example_service) (URL example_service)
             = Some ''net/http: invalid method''"
    by (simp add: invalid_method_def)
  have nm: "ServiceConfig.Name example_service = ''API Service''"
    by (simp add: example_service_def)
  have p: "serviceStatus ?m ''API Service'' = Some (initialStatus ''API Service'' 0)"
    using example_service_configured by (rule NewMonitor_lookup)
  note t = request_construction_failure [OF h, of ?m 0 "clock_at 0", unfolded nm]
  have run: "checkService ?m example_service invalid_method 0 (clock_at 0)
               = ([], updateServiceStatus ?m ''API Service'' False
                         ''net/http: invalid method'' 0 (clock_at 0))"
    by (rule t [THEN conjunct1])
  have rec: "\<exists>m' evs s'.
                 snd (checkService ?m example_service invalid_method 0 (clock_at 0))
                   = Inr (m', evs)
               \<and> serviceStatus m' ''API Service'' = Some s'
               \<and> \<not> Status s' \<and> LastError s' = ''net/http: invalid method''
               \<and> FailureCount s' = FailureCount (initialStatus ''API Service'' 0) + 1"
    by (rule t [THEN conjunct2, rule_format, OF p])
  from rec obtain m' evs s' where
    r: "snd (checkService ?m example_service invalid_method 0 (clock_at 0)) = Inr (m', evs)"
    and s: "serviceStatus m' ''API Service'' = Some s'"
    and f: "\<not> Status s'" "LastError s' = ''net/http: invalid method''"
       "FailureCount s' = FailureCount (initialStatus ''API Service'' 0) + 1"
    by blast
  have "map_option (\<lambda>s. (Status s, LastError s, FailureCount s))
          (record_after
             (snd (checkService ?m example_service invalid_method 0 (clock_at 0)))
             ''API Service'')
        = Some (False, ''net/http: invalid method'', 1)"
    unfolding r using s f by (simp add: record_after_def initialStatus_def)
  moreover have "fst (checkService ?m example_service invalid_method 0 (clock_at 0)) = []"
    unfolding run by simp
  ultimately show ?thesis using h by simp
qed

section \<open>The alert dispatcher\<close>

lemma find_serviceConfig_distinct:
  assumes "distinct (map ServiceConfig.Name ss)" and "s \<in> set ss"
  shows "find_serviceConfig ss (ServiceConfig.Name s) = s"
  using assms by (induction ss) (auto simp: image_iff)

text \<open>The backend calls of an outage-start event are those of \<open>sendAlerts\<close>.\<close>

lemma outage_event_calls:
  assumes "updateServiceStatus m n status errMsg responseTime clk = Inr (m', evs)"
    and "OutageStarted service message calls \<in> set evs"
  shows "service = n \<and> message = errMsg \<and> calls = sendAlerts m n errMsg"
proof (cases "serviceStatus m n")
  case None
  with assms(1) show ?thesis by (simp add: updateServiceStatus_def)
next
  case (Some s)
  show ?thesis
  proof (cases status)
    case False
    with Some assms show ?thesis
      by (cases "Status s \<and> \<not> AlertSent s")
         (auto simp: updateServiceStatus_def sendAlerts_def Let_def)
  next
    case True
    show ?thesis
    proof (cases "Status s")
      case True
      with \<open>status\<close> Some assms show ?thesis
        by (simp add: updateServiceStatus_def Let_def)
    next
      case False
      with \<open>status\<close> Some assms show ?thesis
        by (auto simp: updateServiceStatus_def sendRecoveryAlert_def Let_def)
    qed
  qed
qed

text \<open>
  C7.  Service names are unique in a configuration.  For the outage of a configured
  service, the chat webhook is called exactly when its address is configured, and the
  paging backend is called exactly when the service is critical and the paging key is
  configured; no other call is made.  In particular the outage of a service that is
  not critical makes no paging call, also when the paging backend is configured.
\<close>

theorem criticality_policy:
  assumes "distinct (map ServiceConfig.Name (Services (config m)))"
    and "s \<in> set (Services (config m))"
  shows "sendAlerts m (ServiceConfig.Name s) message =
           (if WebhookURL (Slack (Alerts (config m))) \<noteq> []
            then [SlackAlert (ServiceConfig.Name s) message] else [])
         @ (if CriticalService s \<and> ServiceKey (PagerDuty (Alerts (config m))) \<noteq> []
            then [PagerDutyTrigger (ServiceConfig.Name s) message] else [])
       \<and> (\<exists>c \<in> set (sendAlerts m (ServiceConfig.Name s) message). is_SlackAlert c)
           = (WebhookURL (Slack (Alerts (config m))) \<noteq> [])
       \<and> (\<exists>c \<in> set (sendAlerts m (ServiceConfig.Name s) message). is_PagerDutyTrigger c)
           = (CriticalService s \<and> ServiceKey (PagerDuty (Alerts (config m))) \<noteq> [])
       \<and> (\<not> CriticalService s \<longrightarrow>
            (\<forall>c \<in> set (sendAlerts m (ServiceConfig.Name s) message). \<not> is_PagerDutyTrigger c))"
proof -
  have f: "find_serviceConfig (Services (config m)) (ServiceConfig.Name s) = s"
    using assms by (rule find_serviceConfig_distinct)
  have eq: "sendAlerts m (ServiceConfig.Name s) message =
           (if WebhookURL (Slack (Alerts (config m))) \<noteq> []
            then [SlackAlert (ServiceConfig.Name s) message] else [])
         @ (if CriticalService s \<and> ServiceKey (PagerDuty (Alerts (config m))) \<noteq> []
            then [PagerDutyTrigger (ServiceConfig.Name s) message] else [])"
    by (simp add: sendAlerts_def f)
  show ?thesis
    unfolding eq by auto
qed

theorem criticality_policy_witness:
  "WebhookURL (Slack (Alerts two_services)) \<noteq> []
   \<and> ServiceKey (PagerDuty (Alerts two_services)) \<noteq> []
   \<and> sendAlerts (NewMonitor two_services 0) ''Batch Service'' ''timeout''
       = [SlackAlert ''Batch Service'' ''timeout'']
   \<and> sendAlerts (NewMonitor two_services 0) ''API Service'' ''timeout''
       = [SlackAlert ''API Service'' ''timeout'', PagerDutyTrigger ''API Service'' ''timeout'']"
proof -
  let ?m = "NewMonitor two_services 0"
  have c: "config ?m = two_services" by (simp add: NewMonitor_def)
  have d: "distinct (map ServiceConfig.Name (Services (config ?m)))"
    unfolding c by (simp add: two_services_def example_service_def batch_service_def)
  have b: "batch_service \<in> set (Services (config ?m))"
    unfolding c by (simp add: two_services_def)
  have a: "example_service \<in> set (Services (config ?m))"
    unfolding c by (simp add: two_services_def)
  have w: "WebhookURL (Slack (Alerts two_services)) \<noteq> []"
    and k: "ServiceKey (PagerDuty (Alerts two_services)) \<noteq> []"
    by (simp_all add: two_services_def example_config_def)
  have nb: "ServiceConfig.Name batch_service = ''Batch Service''"
    and cb: "\<not> CriticalService batch_service"
    by (simp_all add: batch_service_def)
  have na: "ServiceConfig.Name example_service = ''API Service''"
    and ca: "CriticalService example_service"
    by (simp_all add: example_service_def)
  from criticality_policy [OF d b, of "''timeout''"]
  have "sendAlerts ?m ''Batch Service'' ''timeout'' = [SlackAlert ''Batch Service'' ''timeout'']"
    unfolding c nb using w cb by simp
  moreover from criticality_policy [OF d a, of "''timeout''"]
  have "sendAlerts ?m ''API Service'' ''timeout''
          = [SlackAlert ''API Service'' ''timeout'', PagerDutyTrigger ''API Service'' ''timeout'']"
    unfolding c na using w k ca by simp
  ultimately show ?thesis using w k by simp
qed

end
